theory Spec2Isabelle
  imports Main "HOL-Library.Word"
begin

section \<open>SimpleLogger.h: the data\<close>

text \<open>
  The class \<^verbatim>\<open>SimpleLogger\<close> of \<^verbatim>\<open>SimpleLogger.h\<close> is embedded as pure functions over
  an explicit process state. Members keep their names without the trailing underscore
  (\<^verbatim>\<open>out_stream_\<close> is \<open>out_stream\<close>), which an Isabelle name cannot end in.

  What the C++ library does is fixed as follows.
  \<^item> A wide string is a character list; \<^verbatim>\<open>std::endl\<close> inserts the single character
    \<open>\<newline>\<close> (its flush is recorded by the synchronized buffer and carried out at emit).
  \<^item> A \<^verbatim>\<open>std::wostream\<close> sink owns its stream buffer (as the \<^verbatim>\<open>std::wofstream\<close> of
    \<^verbatim>\<open>main.cpp\<close> does): the characters written so far and the result of \<^verbatim>\<open>good()\<close>.
    Sinks live in a store of addresses; destroying a sink frees its address.
  \<^item> A \<^verbatim>\<open>std::wosyncstream\<close> holds the address of the sink it wraps, the characters
    pending in its own buffer, and its error state (\<open>failed\<close>: \<^verbatim>\<open>good()\<close> is false).
    A formatted insertion into an adapter in a failed state inserts nothing. The pending
    characters reach the sink when the adapter is destroyed (emit), whatever the error
    state. Emitting into a freed sink is undefined behaviour.
  \<^item> An exception is a value; one that leaves a \<^verbatim>\<open>noexcept\<close> function calls
    \<^verbatim>\<open>std::terminate\<close>.
  \<^item> Memory exhaustion is modelled where the source handles it, at \<^verbatim>\<open>std::make_unique\<close>
    in the constructor (a flag of the call says whether the allocation succeeds).
  \<^item> The calls that several threads make are taken as one sequence, in any
    interleaving; each call is one step on the process state. That the emit of one
    adapter is one step is what the library guarantees of \<^verbatim>\<open>std::wosyncstream\<close>;
    the locks on \<^verbatim>\<open>mutex_\<close> are not modelled.
\<close>

type_synonym wstring = string

datatype cpp_exception =
    bad_alloc
  | out_of_range
  | std_exception string
  | non_std_exception

text \<open>The handler \<^verbatim>\<open>catch (const std::exception& e)\<close> takes the classes derived from
  \<^verbatim>\<open>std::exception\<close>; a thrown value of any other type passes it.\<close>

fun derives_std_exception :: "cpp_exception \<Rightarrow> bool" where
  "derives_std_exception non_std_exception = False"
| "derives_std_exception e = True"

datatype fault =
    propagates cpp_exception
  | terminate
  | undefined_behaviour

text \<open>What is inserted into \<^verbatim>\<open>std::cerr\<close>: a narrow string, the text of \<^verbatim>\<open>e.what()\<close>
  (implementation-defined, so kept as the exception), or \<^verbatim>\<open>std::endl\<close>.\<close>

datatype cerr_item =
    narrow string
  | what cpp_exception
  | endl

record wostream =
  written :: wstring
  good :: bool

record wosyncstream =
  wrapped :: nat
  pending :: wstring
  failed :: bool

text \<open>\<^verbatim>\<open>using PrefixFunction = std::function<std::wstring()>\<close>: a call reads and may change
  the world outside the logger (a clock), and returns a string or throws.\<close>

type_synonym 'w PrefixFunction = "'w \<Rightarrow> (cpp_exception + wstring) \<times> 'w"

text \<open>A value of an insertable type \<open>T\<close> is represented by what
  \<^verbatim>\<open>stream << value\<close> does on a stream in a good state: it inserts characters and
  returns (\<open>inserts\<close>); it inserts characters, sets an error flag and returns (\<open>fails\<close>:
  a null \<^verbatim>\<open>std::wstreambuf*\<close> inserts nothing and sets \<^verbatim>\<open>badbit\<close>); or it throws
  (\<open>throws\<close>). Inserters are taken to be made of formatted output functions, so that
  on a stream in a failed state the first two insert nothing.\<close>

datatype insertable =
    inserts wstring
  | fails wstring
  | throws cpp_exception

text \<open>\<^verbatim>\<open>enum class Severity : uint8_t { kDebug, kInfo, kWarning, kError, kCritical }\<close>.
  Every value of the underlying type is a value of the enumeration type.\<close>

type_synonym Severity = "8 word"

definition kDebug :: Severity where "kDebug = 0"
definition kInfo :: Severity where "kInfo = 1"
definition kWarning :: Severity where "kWarning = 2"
definition kError :: Severity where "kError = 3"
definition kCritical :: Severity where "kCritical = 4"

definition severity_map :: "wstring list" where
  "severity_map = [''DEBUG'', ''INFO'', ''WARNING'', ''ERROR'', ''CRITICAL'']"

text \<open>\<^verbatim>\<open>std::array::at\<close>: bounds-checked access.\<close>

definition array_at :: "'a list \<Rightarrow> nat \<Rightarrow> cpp_exception + 'a" where
  "array_at xs n = (if n < length xs then Inr (xs ! n) else Inl out_of_range)"

text \<open>The non-static members of one \<^verbatim>\<open>SimpleLogger\<close> object.\<close>

record SimpleLogger =
  newline :: bool
  out_sync_stream :: "wosyncstream option"
  out_sync_stream_valid :: bool

text \<open>The static members, shared by all objects, with the rest of the process: the
  store of sinks (\<open>next_free\<close> is the next address an allocation returns), what went to
  \<^verbatim>\<open>std::cerr\<close>, and the world the prefix functions see.\<close>

record 'w process =
  prefix_function_list :: "'w PrefixFunction list"
  out_stream :: "nat option"
  out_stream_valid :: bool
  heap :: "nat \<Rightarrow> wostream option"
  next_free :: nat
  cerr :: "cerr_item list"
  world :: 'w

text \<open>The state at program start: the in-class initialisers of the statics.\<close>

definition initial_process :: "'w \<Rightarrow> 'w process" where
  "initial_process w =
     \<lparr>prefix_function_list = [], out_stream = None, out_stream_valid = False,
      heap = (\<lambda>a. None), next_free = 0, cerr = [], world = w\<rparr>"

section \<open>The setters\<close>

text \<open>
  \<^verbatim>\<open>static void SetOstream(std::unique_ptr<std::wostream> out_stream) noexcept\<close>.
  The argument is the stream object the pointer owns (\<open>None\<close> for \<^verbatim>\<open>nullptr\<close>); unique
  ownership is that it sits at an address no other object has. The move assignment
  destroys the stream the static owned before.
\<close>

definition release_sink :: "'w process \<Rightarrow> nat \<Rightarrow> wostream option" where
  "release_sink s = (case out_stream s of None \<Rightarrow> heap s | Some old \<Rightarrow> (heap s)(old := None))"

definition SetOstream :: "wostream option \<Rightarrow> 'w process \<Rightarrow> 'w process" where
  "SetOstream new_stream s =
     (case new_stream of
        None \<Rightarrow> s\<lparr>out_stream := None, out_stream_valid := False, heap := release_sink s\<rparr>
      | Some os \<Rightarrow>
          s\<lparr>out_stream := Some (next_free s), out_stream_valid := good os,
            heap := (release_sink s)(next_free s \<mapsto> os), next_free := Suc (next_free s)\<rparr>)"

text \<open>\<^verbatim>\<open>static void SetPrefixList(const std::vector<PrefixFunction>& prefix_list) noexcept\<close>\<close>

definition SetPrefixList :: "'w PrefixFunction list \<Rightarrow> 'w process \<Rightarrow> 'w process" where
  "SetPrefixList prefix_list s = s\<lparr>prefix_function_list := prefix_list\<rparr>"

section \<open>The constructor\<close>

text \<open>Formatted insertion of a wide string into the synchronized adapter: the sentry
  refuses an adapter in a failed state.\<close>

definition insert_wstring :: "wstring \<Rightarrow> wosyncstream \<Rightarrow> wosyncstream" where
  "insert_wstring t os = (if failed os then os else os\<lparr>pending := pending os @ t\<rparr>)"

text \<open>\<^verbatim>\<open>setstate\<close> with \<^verbatim>\<open>badbit\<close> or \<^verbatim>\<open>failbit\<close>; the exception mask of the adapter is
  empty, so it does not throw.\<close>

definition setstate :: "wosyncstream \<Rightarrow> wosyncstream" where
  "setstate os = os\<lparr>failed := True\<rparr>"

text \<open>\<^verbatim>\<open>stream << value\<close>\<close>

fun inserter :: "insertable \<Rightarrow> wosyncstream \<Rightarrow> cpp_exception + wosyncstream" where
  "inserter (inserts t) os = Inr (insert_wstring t os)"
| "inserter (fails t) os = Inr (setstate (insert_wstring t os))"
| "inserter (throws e) os = Inl e"

text \<open>The loop \<^verbatim>\<open>for (const auto& prefix : prefix_function_list_) *out_sync_stream_ << prefix();\<close>
  It stops at the first call that throws, with what was inserted before.\<close>

fun write_prefixes ::
  "'w PrefixFunction list \<Rightarrow> wosyncstream \<Rightarrow> 'w \<Rightarrow> cpp_exception option \<times> wosyncstream \<times> 'w" where
  "write_prefixes [] os w = (None, os, w)"
| "write_prefixes (prefix # rest) os w =
     (case prefix w of
        (Inl e, w') \<Rightarrow> (Some e, os, w')
      | (Inr t, w') \<Rightarrow> write_prefixes rest (insert_wstring t os) w')"

text \<open>The body of the \<^verbatim>\<open>try\<close> block, for a sink at address \<open>a\<close>: the exception that
  leaves it if any, and the object and the process as it leaves them. \<open>mem\<close> says
  whether \<^verbatim>\<open>std::make_unique\<close> gets its memory.\<close>

definition try_block ::
  "Severity \<Rightarrow> bool \<Rightarrow> nat \<Rightarrow> SimpleLogger \<Rightarrow> 'w process
     \<Rightarrow> cpp_exception option \<times> SimpleLogger \<times> 'w process" where
  "try_block severity mem a this s =
     (if \<not> mem then (Some bad_alloc, this, s)
      else
        let this1 = this\<lparr>out_sync_stream := Some \<lparr>wrapped = a, pending = [], failed = False\<rparr>,
                          out_sync_stream_valid := True\<rparr>
        in case write_prefixes (prefix_function_list s)
                  \<lparr>wrapped = a, pending = [], failed = False\<rparr> (world s) of
             (Some e, os, w) \<Rightarrow> (Some e, this1\<lparr>out_sync_stream := Some os\<rparr>, s\<lparr>world := w\<rparr>)
           | (None, os, w) \<Rightarrow>
               (case array_at severity_map (unat severity) of
                  Inl e \<Rightarrow> (Some e, this1\<lparr>out_sync_stream := Some os\<rparr>, s\<lparr>world := w\<rparr>)
                | Inr tag \<Rightarrow>
                    (None,
                     this1\<lparr>out_sync_stream := Some (insert_wstring '': '' (insert_wstring tag os))\<rparr>,
                     s\<lparr>world := w\<rparr>)))"

text \<open>\<^verbatim>\<open>SimpleLogger(Severity severity = Severity::kDebug, bool newline = true)\<close>.
  \<open>Inl (propagates e)\<close>: the exception \<open>e\<close> leaves the constructor; the state it leaves
  behind is not described. Reading through \<^verbatim>\<open>out_stream_\<close> is undefined if the pointer
  is null or its sink is gone (\<open>valid_sink_is_live\<close> below: in no state that the calls
  produce).\<close>

definition SimpleLogger_ctor ::
  "Severity \<Rightarrow> bool \<Rightarrow> bool \<Rightarrow> 'w process \<Rightarrow> fault + (SimpleLogger \<times> 'w process)" where
  "SimpleLogger_ctor severity nl mem s =
     (let this = \<lparr>newline = nl, out_sync_stream = None, out_sync_stream_valid = False\<rparr>
      in if out_stream_valid s then
           (case out_stream s of
              None \<Rightarrow> Inl undefined_behaviour
            | Some a \<Rightarrow>
                (case heap s a of
                   None \<Rightarrow> Inl undefined_behaviour
                 | Some sink \<Rightarrow>
                     (case try_block severity mem a this s of
                        (None, this', s') \<Rightarrow> Inr (this', s')
                      | (Some e, this', s') \<Rightarrow>
                          if derives_std_exception e
                          then Inr (this', s'\<lparr>cerr := cerr s' @ [narrow ''caught exception: '', what e, endl]\<rparr>)
                          else Inl (propagates e))))
         else Inr (this, s))"

section \<open>The insertion operator and the destructor\<close>

text \<open>\<^verbatim>\<open>template <typename T> SimpleLogger& operator<<(const T& value) noexcept\<close>.
  The result is the object after the call (\<^verbatim>\<open>return *this\<close>).\<close>

definition operator_shl :: "SimpleLogger \<Rightarrow> insertable \<Rightarrow> fault + SimpleLogger" where
  "operator_shl this v =
     (if out_sync_stream_valid this then
        (case out_sync_stream this of
           None \<Rightarrow> Inl undefined_behaviour
         | Some os \<Rightarrow>
             (case inserter v os of
                Inl e \<Rightarrow> Inl terminate
              | Inr os' \<Rightarrow> Inr (this\<lparr>out_sync_stream := Some os'\<rparr>)))
      else Inr this)"

text \<open>The destruction of a \<^verbatim>\<open>std::wosyncstream\<close>: its pending characters go to the sink
  it wraps, whatever the error state of the adapter.\<close>

definition emit :: "wosyncstream \<Rightarrow> 'w process \<Rightarrow> fault + 'w process" where
  "emit os s =
     (case heap s (wrapped os) of
        None \<Rightarrow> Inl undefined_behaviour
      | Some sink \<Rightarrow>
          Inr (s\<lparr>heap := (heap s)(wrapped os \<mapsto> sink\<lparr>written := written sink @ pending os\<rparr>)\<rparr>))"

text \<open>\<^verbatim>\<open>out_sync_stream_.reset()\<close>\<close>

definition reset :: "wosyncstream option \<Rightarrow> 'w process \<Rightarrow> fault + 'w process" where
  "reset p s = (case p of None \<Rightarrow> Inr s | Some os \<Rightarrow> emit os s)"

text \<open>\<^verbatim>\<open>virtual ~SimpleLogger()\<close>. \<^verbatim>\<open>std::endl\<close> is a formatted insertion of the
  character \<open>\<newline>\<close>.\<close>

definition SimpleLogger_dtor :: "SimpleLogger \<Rightarrow> 'w process \<Rightarrow> fault + 'w process" where
  "SimpleLogger_dtor this s =
     (if newline this \<and> out_sync_stream_valid this then
        (case out_sync_stream this of
           None \<Rightarrow> Inl undefined_behaviour
         | Some os \<Rightarrow> reset (Some (insert_wstring [CHR 0x0A] os)) s)
      else reset (out_sync_stream this) s)"




section \<open>A logging statement\<close>

text \<open>\<^verbatim>\<open>LOG(severity) << v1 << ... << vn;\<close> as in \<^verbatim>\<open>main.cpp\<close>: the temporary is
  constructed, takes the values from left to right and is destroyed at the end of the
  statement.\<close>

fun appends :: "SimpleLogger \<Rightarrow> insertable list \<Rightarrow> fault + SimpleLogger" where
  "appends this [] = Inr this"
| "appends this (v # vs) =
     (case operator_shl this v of Inl f \<Rightarrow> Inl f | Inr this' \<Rightarrow> appends this' vs)"

definition LOG_statement :: "Severity \<Rightarrow> bool \<Rightarrow> bool \<Rightarrow> insertable list \<Rightarrow> 'w process \<Rightarrow> fault + 'w process" where
  "LOG_statement severity nl mem vs s =
     (case SimpleLogger_ctor severity nl mem s of
        Inl f \<Rightarrow> Inl f
      | Inr (this, s') \<Rightarrow>
          (case appends this vs of Inl f \<Rightarrow> Inl f | Inr this' \<Rightarrow> SimpleLogger_dtor this' s'))"

section \<open>Sequences of calls\<close>

text \<open>A client program, as far as the logger sees it: the calls it makes, in the order
  they take effect. Objects are named by numbers. A call on an object outside its
  lifetime, or a construction under a name that is in use, is no program: it gets the
  fault \<open>undefined_behaviour\<close>.\<close>

datatype 'w call =
    BeginLine nat Severity bool bool
  | Append nat insertable
  | EndLine nat
  | InstallSink "wostream option"
  | InstallPrefixes "'w PrefixFunction list"

type_synonym 'w config = "(nat \<Rightarrow> SimpleLogger option) \<times> 'w process"

fun step :: "'w call \<Rightarrow> 'w config \<Rightarrow> fault + 'w config" where
  "step (BeginLine i severity nl mem) (objs, s) =
     (case objs i of
        Some this \<Rightarrow> Inl undefined_behaviour
      | None \<Rightarrow>
          (case SimpleLogger_ctor severity nl mem s of
             Inl f \<Rightarrow> Inl f
           | Inr (this, s') \<Rightarrow> Inr (objs(i \<mapsto> this), s')))"
| "step (Append i v) (objs, s) =
     (case objs i of
        None \<Rightarrow> Inl undefined_behaviour
      | Some this \<Rightarrow>
          (case operator_shl this v of
             Inl f \<Rightarrow> Inl f
           | Inr this' \<Rightarrow> Inr (objs(i \<mapsto> this'), s)))"
| "step (EndLine i) (objs, s) =
     (case objs i of
        None \<Rightarrow> Inl undefined_behaviour
      | Some this \<Rightarrow>
          (case SimpleLogger_dtor this s of
             Inl f \<Rightarrow> Inl f
           | Inr s' \<Rightarrow> Inr (objs(i := None), s')))"
| "step (InstallSink new_stream) (objs, s) = Inr (objs, SetOstream new_stream s)"
| "step (InstallPrefixes prefix_list) (objs, s) = Inr (objs, SetPrefixList prefix_list s)"

fun run :: "'w call list \<Rightarrow> 'w config \<Rightarrow> fault + 'w config" where
  "run [] c = Inr c"
| "run (x # xs) c = (case step x c of Inl f \<Rightarrow> Inl f | Inr c' \<Rightarrow> run xs c')"

text \<open>A sequence is well formed from the list of the live objects when every call is
  on a live object and every construction takes a name that is not in use.\<close>

fun well_formed :: "nat list \<Rightarrow> 'w call list \<Rightarrow> bool" where
  "well_formed live [] = True"
| "well_formed live (BeginLine i severity nl mem # xs) = (i \<notin> set live \<and> well_formed (i # live) xs)"
| "well_formed live (Append i v # xs) = (i \<in> set live \<and> well_formed live xs)"
| "well_formed live (EndLine i # xs) = (i \<in> set live \<and> well_formed (removeAll i live) xs)"
| "well_formed live (InstallSink new_stream # xs) = well_formed live xs"
| "well_formed live (InstallPrefixes prefix_list # xs) = well_formed live xs"

fun line_call :: "'w call \<Rightarrow> bool" where
  "line_call (InstallSink new_stream) = False"
| "line_call (InstallPrefixes prefix_list) = False"
| "line_call x = True"

section \<open>Notions of the specification\<close>

text \<open>What the generators return when each is called once, in the order of the list,
  each on the world the one before left; the calls end with the first that throws.\<close>

fun generator_outputs :: "'w PrefixFunction list \<Rightarrow> 'w \<Rightarrow> (cpp_exception + wstring) list" where
  "generator_outputs [] w = []"
| "generator_outputs (prefix # rest) w =
     (case prefix w of
        (Inl e, w') \<Rightarrow> [Inl e]
      | (Inr t, w') \<Rightarrow> Inr t # generator_outputs rest w')"

fun generators_world :: "'w PrefixFunction list \<Rightarrow> 'w \<Rightarrow> 'w" where
  "generators_world [] w = w"
| "generators_world (prefix # rest) w =
     (case prefix w of
        (Inl e, w') \<Rightarrow> w'
      | (Inr t, w') \<Rightarrow> generators_world rest w')"

text \<open>Of a list of results: the first exception, and the strings before it, joined.\<close>

fun thrown :: "(cpp_exception + wstring) list \<Rightarrow> cpp_exception option" where
  "thrown [] = None"
| "thrown (Inl e # rs) = Some e"
| "thrown (Inr t # rs) = thrown rs"

fun texts :: "(cpp_exception + wstring) list \<Rightarrow> wstring" where
  "texts [] = []"
| "texts (Inl e # rs) = []"
| "texts (Inr t # rs) = t @ texts rs"

text \<open>Of a list of values inserted one after another into an adapter in a good state:
  whether every insertion returns, the characters that are inserted, and whether the
  adapter is left in a failed state.\<close>

fun insertion_returns :: "insertable \<Rightarrow> bool" where
  "insertion_returns (throws e) = False"
| "insertion_returns v = True"

fun inserted :: "insertable list \<Rightarrow> wstring" where
  "inserted [] = []"
| "inserted (inserts t # vs) = t @ inserted vs"
| "inserted (fails t # vs) = t"
| "inserted (throws e # vs) = []"

fun failing :: "insertable list \<Rightarrow> bool" where
  "failing [] = False"
| "failing (inserts t # vs) = failing vs"
| "failing (fails t # vs) = True"
| "failing (throws e # vs) = False"

text \<open>The table of the specification: 0 DEBUG, 1 INFO, 2 WARNING, 3 ERROR, 4 CRITICAL.\<close>

definition severity_name :: "nat \<Rightarrow> wstring" where
  "severity_name i =
     (if i = 0 then ''DEBUG'' else if i = 1 then ''INFO'' else if i = 2 then ''WARNING''
      else if i = 3 then ''ERROR'' else ''CRITICAL'')"

text \<open>The exception thrown during a construction that reached the \<^verbatim>\<open>try\<close> block, as
  the specification lists the causes: the allocation of the adapter, a prefix generator,
  the severity lookup.\<close>

definition construction_exception ::
  "bool \<Rightarrow> (cpp_exception + wstring) list \<Rightarrow> Severity \<Rightarrow> cpp_exception option" where
  "construction_exception mem outs severity =
     (if \<not> mem then Some bad_alloc
      else case thrown outs of
             Some e \<Rightarrow> Some e
           | None \<Rightarrow> if unat severity < 5 then None else Some out_of_range)"

text \<open>The complete text of one line. What a construction leaves pending: the prefixes,
  the tag and the separator; only the prefixes written so far when a generator or the
  lookup has thrown.\<close>

definition header :: "(cpp_exception + wstring) list \<Rightarrow> Severity \<Rightarrow> wstring" where
  "header outs severity =
     texts outs
     @ (if thrown outs = None \<and> unat severity < 5 then severity_name (unat severity) @ '': '' else [])"

text \<open>What an object whose adapter holds \<open>p\<close>, in the failed state iff \<open>f\<close>, writes to the
  sink at its destruction when the values \<open>vs\<close> are inserted before: \<open>p\<close>, the
  characters of the values, the terminator if it is on.\<close>

definition rest_of_line :: "bool \<Rightarrow> wstring \<Rightarrow> bool \<Rightarrow> insertable list \<Rightarrow> wstring" where
  "rest_of_line nl p f vs =
     p @ (if f then [] else inserted vs @ (if nl \<and> \<not> failing vs then [CHR 0x0A] else []))"

text \<open>The line of an object constructed on a valid sink in the world \<open>w\<close> and given the
  values \<open>vs\<close>; an object whose adapter could not be allocated writes nothing.\<close>

definition line_text ::
  "'w PrefixFunction list \<Rightarrow> 'w \<Rightarrow> Severity \<Rightarrow> bool \<Rightarrow> bool \<Rightarrow> insertable list \<Rightarrow> wstring" where
  "line_text ps w severity nl mem vs =
     (if mem then rest_of_line nl (header (generator_outputs ps w) severity) False vs else [])"




text \<open>An object is bound to the sink at \<open>a\<close>, or holds no adapter; and the line it is
  going to write when it is given the values \<open>vs\<close>.\<close>

definition bound_or_none :: "nat \<Rightarrow> SimpleLogger \<Rightarrow> bool" where
  "bound_or_none a this =
     (case out_sync_stream this of
        None \<Rightarrow> \<not> out_sync_stream_valid this
      | Some os \<Rightarrow> out_sync_stream_valid this \<and> wrapped os = a)"

definition line_to_come :: "SimpleLogger \<Rightarrow> insertable list \<Rightarrow> wstring" where
  "line_to_come this vs =
     (case out_sync_stream this of
        None \<Rightarrow> []
      | Some os \<Rightarrow> rest_of_line (newline this) (pending os) (failed os) vs)"

text \<open>The invariant of the registry: the flag is set only if the sink is present.\<close>

definition registry_invariant :: "'w process \<Rightarrow> bool" where
  "registry_invariant s = (out_stream_valid s \<longrightarrow> out_stream s \<noteq> None)"

text \<open>The sink the static pointer owns.\<close>

definition current_sink :: "'w process \<Rightarrow> wostream option" where
  "current_sink s = (case out_stream s of None \<Rightarrow> None | Some a \<Rightarrow> heap s a)"

text \<open>What the setters maintain about the pointer they own: it is null with the flag
  unset, or it is the address of a live sink, allocated before \<open>next_free\<close>, and the flag
  is what \<^verbatim>\<open>good()\<close> of that sink returns.\<close>

definition sink_owned :: "'w process \<Rightarrow> bool" where
  "sink_owned s =
     (case out_stream s of
        None \<Rightarrow> \<not> out_stream_valid s
      | Some a \<Rightarrow>
          a < next_free s
          \<and> (case heap s a of None \<Rightarrow> False | Some sink \<Rightarrow> out_stream_valid s = good sink))"

text \<open>An object that holds no adapter.\<close>

definition no_handle :: "SimpleLogger \<Rightarrow> bool" where
  "no_handle this = (out_sync_stream this = None \<and> \<not> out_sync_stream_valid this)"

section \<open>Concrete processes\<close>

text \<open>The world is a clock that every call of a generator advances.\<close>

definition memory_sink :: wostream where
  "memory_sink = \<lparr>written = [], good = True\<rparr>"

definition unhealthy_sink :: wostream where
  "unhealthy_sink = \<lparr>written = [], good = False\<rparr>"

definition clock_prefix :: "nat PrefixFunction" where
  "clock_prefix n = (Inr (if n = 0 then ''t0 '' else ''t1 ''), Suc n)"

definition failing_prefix :: "nat PrefixFunction" where
  "failing_prefix n = (Inl (std_exception ''no clock''), Suc n)"

definition logging_process :: "nat process" where
  "logging_process =
     SetPrefixList [clock_prefix, clock_prefix] (SetOstream (Some memory_sink) (initial_process 0))"

definition failing_process :: "nat process" where
  "failing_process =
     SetPrefixList [clock_prefix, failing_prefix] (SetOstream (Some memory_sink) (initial_process 0))"

definition silent_process :: "nat process" where
  "silent_process =
     SetPrefixList [failing_prefix] (SetOstream (Some unhealthy_sink) (initial_process 0))"

text \<open>An object in the middle of its line, bound to the sink at address 0.\<close>

definition open_line :: "bool \<Rightarrow> SimpleLogger" where
  "open_line nl =
     \<lparr>newline = nl,
      out_sync_stream = Some \<lparr>wrapped = 0, pending = ''t0 t1 WARNING: '', failed = False\<rparr>,
      out_sync_stream_valid = True\<rparr>"

text \<open>Two lines that overlap in time, the second given a value whose insertion would
  throw.\<close>

definition silent_calls :: "nat call list" where
  "silent_calls =
     [BeginLine 0 kDebug True True, Append 0 (inserts ''Line ''), BeginLine 1 kInfo False True,
      Append 1 (throws non_std_exception), Append 0 (inserts ''1''), EndLine 0, EndLine 1]"

text \<open>A sink is installed, a line is begun, and a second sink is installed before
  the line has ended.\<close>

definition reconfigure_calls :: "nat call list" where
  "reconfigure_calls =
     [InstallSink (Some memory_sink), BeginLine 0 kDebug True True, Append 0 (inserts ''Line ''),
      InstallSink (Some memory_sink)]"

definition startup_calls :: "nat call list" where
  "startup_calls =
     [InstallSink (Some memory_sink), InstallPrefixes [clock_prefix, clock_prefix],
      BeginLine 0 kInfo True True, EndLine 0, InstallSink (Some unhealthy_sink)]"


section \<open>The constructor, in the notions of the specification\<close>

lemma insert_wstring_Nil: "insert_wstring [] os = os"
  by (simp add: insert_wstring_def)

lemma insert_wstring_twice:
  "insert_wstring u (insert_wstring t os) = insert_wstring (t @ u) os"
  by (simp add: insert_wstring_def)

lemma write_prefixes_eq:
  "write_prefixes ps os w =
     (thrown (generator_outputs ps w),
      insert_wstring (texts (generator_outputs ps w)) os,
      generators_world ps w)"
proof (induction ps arbitrary: os w)
  case Nil
  show ?case by (simp add: insert_wstring_Nil)
next
  case (Cons p ps)
  show ?case
  proof (cases "p w")
    case (Pair r w')
    then show ?thesis
      by (cases r) (simp_all add: Cons.IH insert_wstring_Nil insert_wstring_twice)
  qed
qed

lemma severity_map_at:
  "array_at severity_map n = (if n < 5 then Inr (severity_name n) else Inl out_of_range)"
proof (cases "n < 5")
  case True
  then consider "n = 0" | "n = 1" | "n = 2" | "n = 3" | "n = 4" by linarith
  then show ?thesis
    by cases (simp_all add: array_at_def severity_map_def severity_name_def)
next
  case False
  then show ?thesis by (simp add: array_at_def severity_map_def)
qed

lemma try_block_eq:
  "try_block severity mem a this s =
     (if \<not> mem then (Some bad_alloc, this, s)
      else
        let outs = generator_outputs (prefix_function_list s) (world s);
            s' = s\<lparr>world := generators_world (prefix_function_list s) (world s)\<rparr>;
            bound = (\<lambda>t. this\<lparr>out_sync_stream := Some \<lparr>wrapped = a, pending = t, failed = False\<rparr>,
                               out_sync_stream_valid := True\<rparr>)
        in case thrown outs of
             Some e \<Rightarrow> (Some e, bound (texts outs), s')
           | None \<Rightarrow>
               if unat severity < 5
               then (None, bound (texts outs @ severity_name (unat severity) @ '': ''), s')
               else (Some out_of_range, bound (texts outs), s'))"
  by (simp add: try_block_def write_prefixes_eq severity_map_at insert_wstring_def Let_def
      split: option.splits)

lemma ctor_no_sink:
  "\<not> out_stream_valid s \<Longrightarrow>
     SimpleLogger_ctor severity nl mem s =
       Inr (\<lparr>newline = nl, out_sync_stream = None, out_sync_stream_valid = False\<rparr>, s)"
  by (simp add: SimpleLogger_ctor_def)

section \<open>Insertion and destruction\<close>

lemma operator_shl_no_handle: "no_handle this \<Longrightarrow> operator_shl this v = Inr this"
  by (simp add: operator_shl_def no_handle_def)

lemma appends_no_handle: "no_handle this \<Longrightarrow> appends this vs = Inr this"
  by (induction vs) (simp_all add: operator_shl_no_handle)

lemma dtor_no_handle: "no_handle this \<Longrightarrow> SimpleLogger_dtor this s = Inr s"
  by (simp add: SimpleLogger_dtor_def reset_def no_handle_def)

lemma dtor_bound:
  assumes "out_sync_stream_valid this" and "out_sync_stream this = Some os"
    and "heap s (wrapped os) = Some sink"
  shows "SimpleLogger_dtor this s =
           Inr (s\<lparr>heap := (heap s)(wrapped os \<mapsto>
                  sink\<lparr>written := written sink @ rest_of_line (newline this) (pending os) (failed os) []\<rparr>)\<rparr>)"
  using assms
  by (simp add: SimpleLogger_dtor_def reset_def emit_def insert_wstring_def rest_of_line_def)

lemma inserter_returns:
  assumes "insertion_returns v"
  shows "\<exists>os'. inserter v os = Inr os' \<and> wrapped os' = wrapped os
           \<and> rest_of_line nl (pending os') (failed os') vs
               = rest_of_line nl (pending os) (failed os) (v # vs)"
  using assms
  by (cases v) (simp_all add: insert_wstring_def setstate_def rest_of_line_def)

lemma operator_shl_bound:
  assumes "out_sync_stream_valid this" and "out_sync_stream this = Some os"
    and "insertion_returns v"
  shows "\<exists>os'. operator_shl this v = Inr (this\<lparr>out_sync_stream := Some os'\<rparr>)
           \<and> wrapped os' = wrapped os
           \<and> rest_of_line nl (pending os') (failed os') vs
               = rest_of_line nl (pending os) (failed os) (v # vs)"
proof -
  from inserter_returns [OF assms(3), of os nl vs] obtain os' where
    "inserter v os = Inr os'" and "wrapped os' = wrapped os"
    and "rest_of_line nl (pending os') (failed os') vs
               = rest_of_line nl (pending os) (failed os) (v # vs)"
    by blast
  with assms(1,2) show ?thesis by (intro exI [of _ os']) (simp add: operator_shl_def)
qed

lemma appends_bound:
  assumes "out_sync_stream_valid this" and "out_sync_stream this = Some os"
    and "list_all insertion_returns vs"
  shows "\<exists>os'. appends this vs = Inr (this\<lparr>out_sync_stream := Some os'\<rparr>)
           \<and> wrapped os' = wrapped os
           \<and> rest_of_line nl (pending os') (failed os') []
               = rest_of_line nl (pending os) (failed os) vs"
  using assms
proof (induction vs arbitrary: this os)
  case Nil
  then show ?case by (intro exI [of _ os]) simp
next
  case (Cons v vs)
  from Cons.prems have v: "insertion_returns v" and vs: "list_all insertion_returns vs" by simp_all
  from operator_shl_bound [OF Cons.prems(1,2) v, of nl vs] obtain os1 where
    first: "operator_shl this v = Inr (this\<lparr>out_sync_stream := Some os1\<rparr>)"
    and w1: "wrapped os1 = wrapped os"
    and r1: "rest_of_line nl (pending os1) (failed os1) vs
               = rest_of_line nl (pending os) (failed os) (v # vs)"
    by blast
  let ?obj = "this\<lparr>out_sync_stream := Some os1\<rparr>"
  have "\<exists>os'. appends ?obj vs = Inr (?obj\<lparr>out_sync_stream := Some os'\<rparr>)
           \<and> wrapped os' = wrapped os1
           \<and> rest_of_line nl (pending os') (failed os') []
               = rest_of_line nl (pending os1) (failed os1) vs"
    using Cons.prems(1) vs by (intro Cons.IH) simp_all
  then obtain os' where "appends ?obj vs = Inr (?obj\<lparr>out_sync_stream := Some os'\<rparr>)"
    and "wrapped os' = wrapped os1"
    and "rest_of_line nl (pending os') (failed os') []
               = rest_of_line nl (pending os1) (failed os1) vs"
    by blast
  with first w1 r1 show ?case by (intro exI [of _ os']) simp
qed

text \<open>A line on its own: the values are inserted and the object is destroyed.\<close>

lemma line_written:
  assumes "out_sync_stream_valid this" and "out_sync_stream this = Some os"
    and "heap s (wrapped os) = Some sink"
    and "list_all insertion_returns vs"
  shows "(case appends this vs of Inl f \<Rightarrow> Inl f | Inr this' \<Rightarrow> SimpleLogger_dtor this' s) =
           Inr (s\<lparr>heap := (heap s)(wrapped os \<mapsto>
                  sink\<lparr>written := written sink
                         @ rest_of_line (newline this) (pending os) (failed os) vs\<rparr>)\<rparr>)"
proof -
  from appends_bound [OF assms(1,2,4), of "newline this"] obtain os' where
    a: "appends this vs = Inr (this\<lparr>out_sync_stream := Some os'\<rparr>)"
    and w: "wrapped os' = wrapped os"
    and r: "rest_of_line (newline this) (pending os') (failed os') []
               = rest_of_line (newline this) (pending os) (failed os) vs"
    by blast
  have "SimpleLogger_dtor (this\<lparr>out_sync_stream := Some os'\<rparr>) s =
      Inr (s\<lparr>heap := (heap s)(wrapped os' \<mapsto>
             sink\<lparr>written := written sink @ rest_of_line (newline this) (pending os') (failed os') []\<rparr>)\<rparr>)"
    using assms(1,3) w dtor_bound [of "this\<lparr>out_sync_stream := Some os'\<rparr>" os' s sink] by simp
  with a w r show ?thesis by simp
qed


section \<open>The concrete processes\<close>

lemma logging_process_simps:
  "out_stream_valid logging_process" "out_stream logging_process = Some 0"
  "heap logging_process 0 = Some memory_sink"
  "prefix_function_list logging_process = [clock_prefix, clock_prefix]"
  "world logging_process = 0" "cerr logging_process = []"
  by (simp_all add: logging_process_def SetPrefixList_def SetOstream_def initial_process_def
      release_sink_def memory_sink_def)

lemma failing_process_simps:
  "out_stream_valid failing_process" "out_stream failing_process = Some 0"
  "heap failing_process 0 = Some memory_sink"
  "prefix_function_list failing_process = [clock_prefix, failing_prefix]"
  "world failing_process = 0" "cerr failing_process = []"
  by (simp_all add: failing_process_def SetPrefixList_def SetOstream_def initial_process_def
      release_sink_def memory_sink_def)

lemma silent_process_simps:
  "\<not> out_stream_valid silent_process" "out_stream silent_process = Some 0"
  "heap silent_process 0 = Some unhealthy_sink"
  by (simp_all add: silent_process_def SetPrefixList_def SetOstream_def initial_process_def
      release_sink_def unhealthy_sink_def)

text \<open>The end-to-end example of the specification: an in-memory sink, no prefixes, the
  values \<open>''Pi = ''\<close> and 3.14159 at severity Warning, the terminator on.\<close>

lemma end_to_end_example:
  "map_sum id current_sink
     (LOG_statement kWarning True True [inserts ''Pi = '', inserts ''3.14159'']
        (SetPrefixList [] (SetOstream (Some memory_sink) (initial_process ())))) =
   Inr (Some \<lparr>written = ''WARNING: Pi = 3.14159\<newline>'', good = True\<rparr>)"
  by (simp add: LOG_statement_def SimpleLogger_ctor_def try_block_eq SetPrefixList_def
      SetOstream_def initial_process_def release_sink_def memory_sink_def kWarning_def
      severity_name_def operator_shl_def insert_wstring_def SimpleLogger_dtor_def reset_def
      emit_def current_sink_def)

section \<open>Lines whose calls interleave\<close>

lemma thrown_derives:
  assumes "\<forall>p\<in>set ps. \<forall>w e. fst (p w) = Inl e \<longrightarrow> derives_std_exception e"
    and "thrown (generator_outputs ps w) = Some e"
  shows "derives_std_exception e"
  using assms
proof (induction ps arbitrary: w)
  case Nil
  then show ?case by simp
next
  case (Cons p ps)
  show ?case
  proof (cases "p w")
    case (Pair r w')
    show ?thesis
    proof (cases r)
      case (Inl e')
      with Pair Cons.prems(2) have "e' = e" by simp
      moreover from Pair Inl have "fst (p w) = Inl e'" by simp
      ultimately show ?thesis using Cons.prems(1) by auto
    next
      case (Inr t)
      with Pair Cons.prems(2) have "thrown (generator_outputs ps w') = Some e" by simp
      with Cons.prems(1) show ?thesis by (intro Cons.IH [of w']) simp_all
    qed
  qed
qed

lemma ctor_line:
  assumes "out_stream_valid s" and "out_stream s = Some a" and "heap s a = Some sink"
    and "\<forall>p\<in>set (prefix_function_list s). \<forall>w e. fst (p w) = Inl e \<longrightarrow> derives_std_exception e"
  shows "\<exists>b s'. SimpleLogger_ctor severity nl mem s = Inr (b, s')
           \<and> bound_or_none a b
           \<and> (\<forall>vs. line_to_come b vs = line_text (prefix_function_list s) (world s) severity nl mem vs)
           \<and> heap s' = heap s \<and> out_stream s' = out_stream s
           \<and> out_stream_valid s' = out_stream_valid s
           \<and> prefix_function_list s' = prefix_function_list s
           \<and> world s' = (if mem then generators_world (prefix_function_list s) (world s) else world s)"
proof (cases mem)
  case False
  with assms(1-3) show ?thesis
    by (simp add: SimpleLogger_ctor_def try_block_eq bound_or_none_def line_to_come_def
        line_text_def)
next
  case True
  let ?outs = "generator_outputs (prefix_function_list s) (world s)"
  show ?thesis
  proof (cases "thrown ?outs")
    case None
    with True assms(1-3) show ?thesis
      by (simp add: SimpleLogger_ctor_def try_block_eq bound_or_none_def line_to_come_def
          line_text_def header_def)
  next
    case (Some e)
    with assms(4) have "derives_std_exception e" by (rule thrown_derives)
    with Some True assms(1-3) show ?thesis
      by (simp add: SimpleLogger_ctor_def try_block_eq bound_or_none_def line_to_come_def
          line_text_def header_def)
  qed
qed


text \<open>What a line is: the text that the logging statement with the same arguments
  writes when it runs alone from the same world.\<close>

lemma line_text_alone:
  assumes "out_stream_valid s" and "out_stream s = Some a" and "heap s a = Some sink"
    and "\<forall>p\<in>set (prefix_function_list s). \<forall>w e. fst (p w) = Inl e \<longrightarrow> derives_std_exception e"
    and "list_all insertion_returns vs"
  shows "\<exists>s'. LOG_statement severity nl mem vs s = Inr s'
           \<and> heap s' a = Some (sink\<lparr>written := written sink
                 @ line_text (prefix_function_list s) (world s) severity nl mem vs\<rparr>)"
proof -
  from ctor_line [OF assms(1-4), of severity nl mem] obtain b s' where
    c: "SimpleLogger_ctor severity nl mem s = Inr (b, s')" and bn: "bound_or_none a b"
    and ln: "line_to_come b vs = line_text (prefix_function_list s) (world s) severity nl mem vs"
    and hp: "heap s' = heap s"
    by blast
  show ?thesis
  proof (cases "out_sync_stream b")
    case None
    with bn have nh: "no_handle b" by (simp add: bound_or_none_def no_handle_def)
    from None ln have "line_text (prefix_function_list s) (world s) severity nl mem vs = []"
      by (simp add: line_to_come_def)
    with c nh hp assms(3) show ?thesis
      by (simp add: LOG_statement_def appends_no_handle dtor_no_handle)
  next
    case (Some os)
    with bn have fl: "out_sync_stream_valid b" and wr: "wrapped os = a"
      by (simp_all add: bound_or_none_def)
    from line_written [OF fl Some _ assms(5), of s' sink] hp wr assms(3) Some ln c
    show ?thesis by (simp add: LOG_statement_def line_to_come_def)
  qed
qed



section \<open>The lines of a process whose sink is valid\<close>

text \<open>
  C2. A construction with a valid sink and a severity in the range 0..4, in which the
  adapter is allocated and no generator throws, leaves pending in the adapter, in this
  order: what each installed prefix generator returns when it is called now, in the
  order of registration (each call on the world the call before left), then the name
  of the severity in the table 0 DEBUG, 1 INFO, 2 WARNING, 3 ERROR, 4 CRITICAL, then
  the separator \<open>'': ''\<close>.
\<close>

theorem ctor_writes_prefixes_tag_separator:
  assumes "out_stream_valid s" and "out_stream s = Some a" and "heap s a = Some sink"
    and "unat severity < 5"
    and "mem"
    and "thrown (generator_outputs (prefix_function_list s) (world s)) = None"
  shows "SimpleLogger_ctor severity nl mem s =
           Inr (\<lparr>newline = nl,
                 out_sync_stream = Some \<lparr>wrapped = a,
                   pending = texts (generator_outputs (prefix_function_list s) (world s))
                             @ severity_name (unat severity) @ '': '', failed = False\<rparr>,
                 out_sync_stream_valid = True\<rparr>,
                s\<lparr>world := generators_world (prefix_function_list s) (world s)\<rparr>)"
  using assms by (simp add: SimpleLogger_ctor_def try_block_eq)

theorem ctor_writes_prefixes_tag_separator_witness:
  "out_stream_valid logging_process \<and> out_stream logging_process = Some 0
   \<and> heap logging_process 0 = Some memory_sink \<and> unat kWarning < 5
   \<and> thrown (generator_outputs (prefix_function_list logging_process) (world logging_process)) = None
   \<and> SimpleLogger_ctor kWarning False True logging_process =
       Inr (\<lparr>newline = False,
             out_sync_stream = Some \<lparr>wrapped = 0, pending = ''t0 t1 WARNING: '', failed = False\<rparr>,
             out_sync_stream_valid = True\<rparr>,
            logging_process\<lparr>world := 2\<rparr>)"
proof -
  have v: "out_stream_valid logging_process" and p: "out_stream logging_process = Some 0"
    and h: "heap logging_process 0 = Some memory_sink"
    by (simp_all add: logging_process_simps)
  have r: "unat kWarning < 5" by (simp add: kWarning_def)
  have t: "thrown (generator_outputs (prefix_function_list logging_process) (world logging_process)) = None"
    by (simp add: logging_process_simps clock_prefix_def)
  show ?thesis
    using v p h r t ctor_writes_prefixes_tag_separator [OF v p h r TrueI t, of False]
    by (simp add: logging_process_simps clock_prefix_def severity_name_def kWarning_def)
qed

text \<open>
  C3, as the code has it. The claim is that after any exception during construction
  the object has no valid handle, so that later insertions and the terminator are
  dropped. The flag \<^verbatim>\<open>out_sync_stream_valid_\<close> is set as soon as the adapter is
  allocated, before the generators run: in the process below the second generator
  throws, the exception is caught and reported, and the object keeps a valid handle
  with the first prefix pending; the next insertion is appended and the destructor
  writes the line and its terminator to the sink.
\<close>

theorem ctor_failure_keeps_handle_counterexample:
  "SimpleLogger_ctor kError True True failing_process =
     Inr (\<lparr>newline = True, out_sync_stream = Some \<lparr>wrapped = 0, pending = ''t0 '', failed = False\<rparr>,
           out_sync_stream_valid = True\<rparr>,
          failing_process\<lparr>world := 2,
            cerr := [narrow ''caught exception: '', what (std_exception ''no clock''), endl]\<rparr>)
   \<and> operator_shl \<lparr>newline = True, out_sync_stream = Some \<lparr>wrapped = 0, pending = ''t0 '', failed = False\<rparr>,
                    out_sync_stream_valid = True\<rparr> (inserts ''disk full'') =
     Inr \<lparr>newline = True, out_sync_stream = Some \<lparr>wrapped = 0, pending = ''t0 disk full'', failed = False\<rparr>,
          out_sync_stream_valid = True\<rparr>
   \<and> SimpleLogger_dtor \<lparr>newline = True, out_sync_stream = Some \<lparr>wrapped = 0, pending = ''t0 disk full'', failed = False\<rparr>,
                         out_sync_stream_valid = True\<rparr> failing_process =
     Inr (failing_process\<lparr>heap := (heap failing_process)(0 \<mapsto>
            \<lparr>written = ''t0 disk full\<newline>'', good = True\<rparr>)\<rparr>)"
  by (simp add: SimpleLogger_ctor_def try_block_eq failing_process_simps clock_prefix_def
      failing_prefix_def operator_shl_def insert_wstring_def dtor_bound rest_of_line_def
      memory_sink_def)

text \<open>
  C3, amended. When an exception derived from \<^verbatim>\<open>std::exception\<close> is thrown during a
  construction with a valid sink (by the allocation of the adapter, by a prefix
  generator or by the severity lookup), the constructor returns, and one diagnostic
  (\<open>caught exception: \<close>, the text of the exception, end of line) has gone to
  \<^verbatim>\<open>std::cerr\<close>. The object has no valid handle exactly when it was the allocation
  that failed: then every later insertion returns the object as it is and the
  destructor leaves the process as it is. When a generator or the lookup threw, the
  handle is valid and holds what the generators returned before the failure; a later
  insertion is appended to it, and the destructor writes the line, with its terminator
  if that is on, to the sink.
\<close>

theorem ctor_exception_caught:
  assumes "out_stream_valid s" and "out_stream s = Some a" and "heap s a = Some sink"
    and "construction_exception mem (generator_outputs (prefix_function_list s) (world s)) severity = Some e"
    and "derives_std_exception e"
  shows "let outs = generator_outputs (prefix_function_list s) (world s);
             this = \<lparr>newline = nl,
                     out_sync_stream = (if mem then Some \<lparr>wrapped = a, pending = texts outs, failed = False\<rparr> else None),
                     out_sync_stream_valid = mem\<rparr>;
             s' = (if mem then s\<lparr>world := generators_world (prefix_function_list s) (world s)\<rparr> else s)
                    \<lparr>cerr := cerr s @ [narrow ''caught exception: '', what e, endl]\<rparr>
         in SimpleLogger_ctor severity nl mem s = Inr (this, s')
            \<and> (if mem
               then operator_shl this (inserts t) =
                      Inr (this\<lparr>out_sync_stream := Some \<lparr>wrapped = a, pending = texts outs @ t, failed = False\<rparr>\<rparr>)
                    \<and> SimpleLogger_dtor this s' =
                      Inr (s'\<lparr>heap := (heap s)(a \<mapsto> sink\<lparr>written := written sink @ texts outs
                                 @ (if nl then [CHR 0x0A] else [])\<rparr>)\<rparr>)
               else e = bad_alloc \<and> operator_shl this v = Inr this \<and> SimpleLogger_dtor this s' = Inr s')"
proof (cases mem)
  case False
  with assms show ?thesis
    by (simp add: SimpleLogger_ctor_def try_block_eq construction_exception_def Let_def
        operator_shl_no_handle dtor_no_handle no_handle_def)
next
  case True
  with assms show ?thesis
    by (auto simp add: SimpleLogger_ctor_def try_block_eq construction_exception_def Let_def
        operator_shl_def insert_wstring_def dtor_bound rest_of_line_def
        split: option.splits if_splits)
qed

theorem ctor_exception_caught_witness:
  "out_stream_valid failing_process \<and> out_stream failing_process = Some 0
   \<and> heap failing_process 0 = Some memory_sink
   \<and> construction_exception True
        (generator_outputs (prefix_function_list failing_process) (world failing_process)) kError
       = Some (std_exception ''no clock'')
   \<and> derives_std_exception (std_exception ''no clock'')
   \<and> SimpleLogger_ctor kError False True failing_process =
       Inr (\<lparr>newline = False, out_sync_stream = Some \<lparr>wrapped = 0, pending = ''t0 '', failed = False\<rparr>,
             out_sync_stream_valid = True\<rparr>,
            failing_process\<lparr>world := 2,
              cerr := [narrow ''caught exception: '', what (std_exception ''no clock''), endl]\<rparr>)
   \<and> operator_shl \<lparr>newline = False, out_sync_stream = Some \<lparr>wrapped = 0, pending = ''t0 '', failed = False\<rparr>,
                    out_sync_stream_valid = True\<rparr> (inserts ''disk full'') =
       Inr \<lparr>newline = False, out_sync_stream = Some \<lparr>wrapped = 0, pending = ''t0 disk full'', failed = False\<rparr>,
            out_sync_stream_valid = True\<rparr>
   \<and> construction_exception False
        (generator_outputs (prefix_function_list failing_process) (world failing_process)) kError
       = Some bad_alloc
   \<and> derives_std_exception bad_alloc
   \<and> SimpleLogger_ctor kError True False failing_process =
       Inr (\<lparr>newline = True, out_sync_stream = None, out_sync_stream_valid = False\<rparr>,
            failing_process\<lparr>cerr := [narrow ''caught exception: '', what bad_alloc, endl]\<rparr>)
   \<and> operator_shl \<lparr>newline = True, out_sync_stream = None, out_sync_stream_valid = False\<rparr>
         (inserts ''disk full'') =
       Inr \<lparr>newline = True, out_sync_stream = None, out_sync_stream_valid = False\<rparr>
   \<and> SimpleLogger_dtor \<lparr>newline = True, out_sync_stream = None, out_sync_stream_valid = False\<rparr>
         (failing_process\<lparr>cerr := [narrow ''caught exception: '', what bad_alloc, endl]\<rparr>) =
       Inr (failing_process\<lparr>cerr := [narrow ''caught exception: '', what bad_alloc, endl]\<rparr>)"
proof -
  have v: "out_stream_valid failing_process" and p: "out_stream failing_process = Some 0"
    and h: "heap failing_process 0 = Some memory_sink"
    by (simp_all add: failing_process_simps)
  have c: "construction_exception True
        (generator_outputs (prefix_function_list failing_process) (world failing_process)) kError
       = Some (std_exception ''no clock'')"
    by (simp add: construction_exception_def failing_process_simps clock_prefix_def failing_prefix_def)
  have d: "derives_std_exception (std_exception ''no clock'')" by simp
  have c': "construction_exception False
        (generator_outputs (prefix_function_list failing_process) (world failing_process)) kError
       = Some bad_alloc"
    by (simp add: construction_exception_def)
  have d': "derives_std_exception bad_alloc" by simp
  have generator: "SimpleLogger_ctor kError False True failing_process =
       Inr (\<lparr>newline = False, out_sync_stream = Some \<lparr>wrapped = 0, pending = ''t0 '', failed = False\<rparr>,
             out_sync_stream_valid = True\<rparr>,
            failing_process\<lparr>world := 2,
              cerr := [narrow ''caught exception: '', what (std_exception ''no clock''), endl]\<rparr>)
   \<and> operator_shl \<lparr>newline = False, out_sync_stream = Some \<lparr>wrapped = 0, pending = ''t0 '', failed = False\<rparr>,
                    out_sync_stream_valid = True\<rparr> (inserts ''disk full'') =
       Inr \<lparr>newline = False, out_sync_stream = Some \<lparr>wrapped = 0, pending = ''t0 disk full'', failed = False\<rparr>,
            out_sync_stream_valid = True\<rparr>"
    using ctor_exception_caught [OF v p h c d, of False "''disk full''"]
    by (simp add: Let_def failing_process_simps clock_prefix_def failing_prefix_def)
  have allocation: "SimpleLogger_ctor kError True False failing_process =
       Inr (\<lparr>newline = True, out_sync_stream = None, out_sync_stream_valid = False\<rparr>,
            failing_process\<lparr>cerr := [narrow ''caught exception: '', what bad_alloc, endl]\<rparr>)
   \<and> operator_shl \<lparr>newline = True, out_sync_stream = None, out_sync_stream_valid = False\<rparr>
         (inserts ''disk full'') =
       Inr \<lparr>newline = True, out_sync_stream = None, out_sync_stream_valid = False\<rparr>
   \<and> SimpleLogger_dtor \<lparr>newline = True, out_sync_stream = None, out_sync_stream_valid = False\<rparr>
         (failing_process\<lparr>cerr := [narrow ''caught exception: '', what bad_alloc, endl]\<rparr>) =
       Inr (failing_process\<lparr>cerr := [narrow ''caught exception: '', what bad_alloc, endl]\<rparr>)"
    using ctor_exception_caught [OF v p h c' d', of True _ "inserts ''disk full''"]
    by (simp add: Let_def failing_process_simps)
  from v p h c d c' d' generator allocation show ?thesis by simp
qed

text \<open>
  C4. For every severity outside the range 0..4, a construction with a valid sink (the
  adapter allocated, no generator throwing) reaches the bounds-checked lookup
  \<^verbatim>\<open>severity_map.at\<close>, which throws \<^verbatim>\<open>std::out_of_range\<close>; the constructor catches it,
  reports it on \<^verbatim>\<open>std::cerr\<close> and returns an object with a valid handle that holds the
  prefixes and neither tag nor separator. The logging statement then runs to its end,
  for all values whose insertion returns: the sink receives the prefixes, the
  characters of the values and the terminator if it is on (the values and the
  terminator as far as no insertion has set an error flag on the adapter).
\<close>

theorem ctor_out_of_range_severity:
  assumes "out_stream_valid s" and "out_stream s = Some a" and "heap s a = Some sink"
    and "5 \<le> unat severity"
    and "mem"
    and "thrown (generator_outputs (prefix_function_list s) (world s)) = None"
    and "list_all insertion_returns vs"
  shows "let outs = generator_outputs (prefix_function_list s) (world s);
             s' = s\<lparr>world := generators_world (prefix_function_list s) (world s),
                    cerr := cerr s @ [narrow ''caught exception: '', what out_of_range, endl]\<rparr>
         in array_at severity_map (unat severity) = Inl out_of_range
            \<and> SimpleLogger_ctor severity nl mem s =
                Inr (\<lparr>newline = nl,
                      out_sync_stream = Some \<lparr>wrapped = a, pending = texts outs, failed = False\<rparr>,
                      out_sync_stream_valid = True\<rparr>, s')
            \<and> LOG_statement severity nl mem vs s =
                Inr (s'\<lparr>heap := (heap s)(a \<mapsto> sink\<lparr>written := written sink @ texts outs @ inserted vs
                           @ (if nl \<and> \<not> failing vs then [CHR 0x0A] else [])\<rparr>)\<rparr>)"
proof -
  let ?outs = "generator_outputs (prefix_function_list s) (world s)"
  let ?s' = "s\<lparr>world := generators_world (prefix_function_list s) (world s),
                cerr := cerr s @ [narrow ''caught exception: '', what out_of_range, endl]\<rparr>"
  let ?os = "\<lparr>wrapped = a, pending = texts ?outs, failed = False\<rparr>"
  let ?obj = "\<lparr>newline = nl, out_sync_stream = Some ?os, out_sync_stream_valid = True\<rparr>"
  have lookup: "array_at severity_map (unat severity) = Inl out_of_range"
    using assms(4) by (simp add: severity_map_at)
  have ctor: "SimpleLogger_ctor severity nl mem s = Inr (?obj, ?s')"
    using assms by (simp add: SimpleLogger_ctor_def try_block_eq)
  have line: "(case appends ?obj vs of Inl f \<Rightarrow> Inl f | Inr this' \<Rightarrow> SimpleLogger_dtor this' ?s') =
               Inr (?s'\<lparr>heap := (heap s)(a \<mapsto> sink\<lparr>written := written sink @ texts ?outs @ inserted vs
                           @ (if nl \<and> \<not> failing vs then [CHR 0x0A] else [])\<rparr>)\<rparr>)"
    using line_written [of ?obj ?os ?s' sink vs] assms(3,7) by (simp add: rest_of_line_def)
  show ?thesis
    unfolding Let_def using lookup ctor line by (simp add: LOG_statement_def)
qed

theorem ctor_out_of_range_severity_witness:
  "out_stream_valid logging_process \<and> out_stream logging_process = Some 0
   \<and> heap logging_process 0 = Some memory_sink \<and> 5 \<le> unat (7 :: Severity)
   \<and> thrown (generator_outputs (prefix_function_list logging_process) (world logging_process)) = None
   \<and> list_all insertion_returns [inserts ''Line '', inserts ''1'']
   \<and> array_at severity_map (unat (7 :: Severity)) = Inl out_of_range
   \<and> SimpleLogger_ctor 7 True True logging_process =
       Inr (\<lparr>newline = True,
             out_sync_stream = Some \<lparr>wrapped = 0, pending = ''t0 t1 '', failed = False\<rparr>,
             out_sync_stream_valid = True\<rparr>,
            logging_process\<lparr>world := 2,
              cerr := [narrow ''caught exception: '', what out_of_range, endl]\<rparr>)
   \<and> LOG_statement 7 True True [inserts ''Line '', inserts ''1''] logging_process =
       Inr (logging_process\<lparr>world := 2,
              cerr := [narrow ''caught exception: '', what out_of_range, endl],
              heap := (heap logging_process)(0 \<mapsto> \<lparr>written = ''t0 t1 Line 1\<newline>'', good = True\<rparr>)\<rparr>)"
proof -
  have v: "out_stream_valid logging_process" and p: "out_stream logging_process = Some 0"
    and h: "heap logging_process 0 = Some memory_sink"
    by (simp_all add: logging_process_simps)
  have r: "5 \<le> unat (7 :: Severity)" by simp
  have t: "thrown (generator_outputs (prefix_function_list logging_process) (world logging_process)) = None"
    by (simp add: logging_process_simps clock_prefix_def)
  have u: "list_all insertion_returns [inserts ''Line '', inserts ''1'']" by simp
  show ?thesis
    using v p h r t u ctor_out_of_range_severity [OF v p h r TrueI t u, of True]
    by (simp add: Let_def logging_process_simps clock_prefix_def memory_sink_def)
qed

section \<open>The lines of a process whose sink is absent or unhealthy\<close>

lemma run_no_sink:
  assumes "\<not> out_stream_valid s"
    and "well_formed live xs" and "list_all line_call xs"
    and "dom objs = set live"
    and "\<forall>i this. objs i = Some this \<longrightarrow> no_handle this"
  shows "\<exists>objs'. run xs (objs, s) = Inr (objs', s)
           \<and> (\<forall>i this. objs' i = Some this \<longrightarrow> no_handle this)"
  using assms(2-)
proof (induction xs arbitrary: live objs)
  case Nil
  then show ?case by simp
next
  case (Cons x xs)
  show ?case
  proof (cases x)
    case (BeginLine i severity nl mem)
    let ?obj = "\<lparr>newline = nl, out_sync_stream = None, out_sync_stream_valid = False\<rparr>"
    from Cons.prems BeginLine have fresh: "objs i = None" by auto
    then have st: "step x (objs, s) = Inr (objs(i \<mapsto> ?obj), s)"
      using BeginLine assms(1) by (simp add: ctor_no_sink)
    have "\<exists>objs'. run xs (objs(i \<mapsto> ?obj), s) = Inr (objs', s)
           \<and> (\<forall>i this. objs' i = Some this \<longrightarrow> no_handle this)"
    proof (rule Cons.IH)
      show "well_formed (i # live) xs" using Cons.prems BeginLine by simp
      show "list_all line_call xs" using Cons.prems by simp
      show "dom (objs(i \<mapsto> ?obj)) = set (i # live)" using Cons.prems by simp
      show "\<forall>j this. (objs(i \<mapsto> ?obj)) j = Some this \<longrightarrow> no_handle this"
        using Cons.prems by (simp add: no_handle_def)
    qed
    with st show ?thesis by simp
  next
    case (Append i v)
    from Cons.prems Append have "i \<in> dom objs" by simp
    then obtain b where obj: "objs i = Some b" by (auto simp add: dom_def)
    with Cons.prems have nh: "no_handle b" by blast
    with obj have st: "step x (objs, s) = Inr (objs, s)"
      using Append by (simp add: operator_shl_no_handle fun_upd_idem)
    have "\<exists>objs'. run xs (objs, s) = Inr (objs', s)
           \<and> (\<forall>i this. objs' i = Some this \<longrightarrow> no_handle this)"
      using Cons.prems Append by (intro Cons.IH [of live]) simp_all
    with st show ?thesis by simp
  next
    case (EndLine i)
    from Cons.prems EndLine have "i \<in> dom objs" by simp
    then obtain b where obj: "objs i = Some b" by (auto simp add: dom_def)
    with Cons.prems have nh: "no_handle b" by blast
    with obj have st: "step x (objs, s) = Inr (objs(i := None), s)"
      using EndLine by (simp add: dtor_no_handle)
    have "\<exists>objs'. run xs (objs(i := None), s) = Inr (objs', s)
           \<and> (\<forall>i this. objs' i = Some this \<longrightarrow> no_handle this)"
    proof (rule Cons.IH)
      show "well_formed (removeAll i live) xs" using Cons.prems EndLine by simp
      show "list_all line_call xs" using Cons.prems by simp
      show "dom (objs(i := None)) = set (removeAll i live)" using Cons.prems by auto
      show "\<forall>j this. (objs(i := None)) j = Some this \<longrightarrow> no_handle this"
        using Cons.prems by simp
    qed
    with st show ?thesis by simp
  next
    case (InstallSink new_stream)
    with Cons.prems show ?thesis by simp
  next
    case (InstallPrefixes prefix_list)
    with Cons.prems show ?thesis by simp
  qed
qed

text \<open>
  C5. While the flag \<^verbatim>\<open>out_stream_valid_\<close> is unset (no sink was installed, or the
  installed one was absent or not good when it was installed), a construction returns
  an object with no adapter and an unset handle flag and leaves the process as it is,
  without calling a generator; an insertion of any value, also of one whose insertion
  would throw, returns the object as it is; the destruction leaves the process as it
  is. So every well-formed sequence of constructions, insertions and destructions, on
  any number of objects alive at once, runs to its end without a fault and leaves the
  process (the sinks, the diagnostic channel, the world) exactly as it was, and every
  object still alive has no handle.
\<close>

theorem no_sink_no_output:
  assumes "\<not> out_stream_valid s"
    and "well_formed [] xs" and "list_all line_call xs"
  shows "SimpleLogger_ctor severity nl mem s =
           Inr (\<lparr>newline = nl, out_sync_stream = None, out_sync_stream_valid = False\<rparr>, s)
         \<and> operator_shl \<lparr>newline = nl, out_sync_stream = None, out_sync_stream_valid = False\<rparr> v =
           Inr \<lparr>newline = nl, out_sync_stream = None, out_sync_stream_valid = False\<rparr>
         \<and> SimpleLogger_dtor \<lparr>newline = nl, out_sync_stream = None, out_sync_stream_valid = False\<rparr> s = Inr s
         \<and> (\<exists>objs. run xs (Map.empty, s) = Inr (objs, s)
               \<and> (\<forall>i this. objs i = Some this \<longrightarrow> no_handle this))"
proof -
  have "\<exists>objs. run xs (Map.empty, s) = Inr (objs, s)
               \<and> (\<forall>i this. objs i = Some this \<longrightarrow> no_handle this)"
    using assms by (intro run_no_sink [of s "[]"]) simp_all
  then show ?thesis
    using assms(1) by (simp add: ctor_no_sink operator_shl_no_handle dtor_no_handle no_handle_def)
qed

theorem no_sink_no_output_witness:
  "\<not> out_stream_valid silent_process \<and> well_formed [] silent_calls \<and> list_all line_call silent_calls
   \<and> SimpleLogger_ctor kDebug True True silent_process =
       Inr (\<lparr>newline = True, out_sync_stream = None, out_sync_stream_valid = False\<rparr>, silent_process)
   \<and> run silent_calls (Map.empty, silent_process) = Inr (Map.empty, silent_process)
   \<and> heap silent_process 0 = Some unhealthy_sink"
proof -
  have v: "\<not> out_stream_valid silent_process" by (simp add: silent_process_simps)
  have w: "well_formed [] silent_calls" by (simp add: silent_calls_def)
  have l: "list_all line_call silent_calls" by (simp add: silent_calls_def)
  have r: "run silent_calls (Map.empty, silent_process) = Inr (Map.empty, silent_process)"
    using v by (simp add: silent_calls_def ctor_no_sink operator_shl_def SimpleLogger_dtor_def reset_def)
  show ?thesis
    using v w l r no_sink_no_output [OF v w l, of kDebug True True]
    by (simp add: silent_process_simps)
qed

section \<open>The end of a line\<close>




section \<open>An insertion that throws\<close>

text \<open>
  C7, at the input where the code leaves it. \<^verbatim>\<open>operator<<\<close> is declared
  \<^verbatim>\<open>noexcept\<close> and inserts the value with no handler around the insertion. On an
  object with a valid handle, a value whose insertion throws ends the call, and the
  logging statement with it, in \<^verbatim>\<open>std::terminate\<close>: the failure is not taken as an
  insertion of nothing, and the value after it is never inserted.
\<close>

theorem throwing_inserter_terminates:
  "operator_shl (open_line True) (throws (std_exception ''bad value'')) = Inl terminate
   \<and> LOG_statement kWarning True True
        [inserts ''Pi = '', throws (std_exception ''bad value''), inserts ''3.14159'']
        logging_process = Inl terminate"
  by (simp add: open_line_def operator_shl_def LOG_statement_def SimpleLogger_ctor_def try_block_eq
      logging_process_simps clock_prefix_def kWarning_def insert_wstring_def)

section \<open>The registry\<close>

lemma try_block_registry:
  "try_block severity mem a this s = (r, this', s') \<Longrightarrow>
     out_stream s' = out_stream s \<and> out_stream_valid s' = out_stream_valid s"
  by (auto simp add: try_block_eq Let_def split: if_splits option.splits)

lemma ctor_registry:
  assumes "SimpleLogger_ctor severity nl mem s = Inr (this, s')"
  shows "out_stream s' = out_stream s \<and> out_stream_valid s' = out_stream_valid s"
proof (cases "out_stream_valid s")
  case False
  with assms show ?thesis by (simp add: ctor_no_sink)
next
  case True
  with assms obtain a sink where a: "out_stream s = Some a" and live: "heap s a = Some sink"
    by (auto simp add: SimpleLogger_ctor_def split: option.splits)
  obtain r b t where tb: "try_block severity mem a
      \<lparr>newline = nl, out_sync_stream = None, out_sync_stream_valid = False\<rparr> s = (r, b, t)"
    by (cases "try_block severity mem a
      \<lparr>newline = nl, out_sync_stream = None, out_sync_stream_valid = False\<rparr> s") auto
  from try_block_registry [OF tb] assms True a live tb show ?thesis
    by (auto simp add: SimpleLogger_ctor_def split: option.splits if_splits)
qed

lemma dtor_registry:
  assumes "SimpleLogger_dtor this s = Inr s'"
  shows "out_stream s' = out_stream s \<and> out_stream_valid s' = out_stream_valid s"
  using assms
  by (auto simp add: SimpleLogger_dtor_def reset_def emit_def split: if_splits option.splits)

lemma SetOstream_invariant: "registry_invariant (SetOstream new_stream s)"
  by (cases new_stream) (simp_all add: registry_invariant_def SetOstream_def)

lemma step_invariant:
  assumes "registry_invariant s" and "step x (objs, s) = Inr (objs', s')"
  shows "registry_invariant s'"
proof (cases x)
  case (BeginLine i severity nl mem)
  with assms(2) obtain b where "SimpleLogger_ctor severity nl mem s = Inr (b, s')"
    by (auto split: option.splits sum.splits)
  from ctor_registry [OF this] assms(1) show ?thesis by (simp add: registry_invariant_def)
next
  case (Append i v)
  with assms show ?thesis by (auto split: option.splits sum.splits)
next
  case (EndLine i)
  with assms(2) obtain b where "SimpleLogger_dtor b s = Inr s'"
    by (auto split: option.splits sum.splits)
  from dtor_registry [OF this] assms(1) show ?thesis by (simp add: registry_invariant_def)
next
  case (InstallSink new_stream)
  with assms(2) show ?thesis by (auto simp add: SetOstream_invariant)
next
  case (InstallPrefixes prefix_list)
  with assms show ?thesis by (auto simp add: registry_invariant_def SetPrefixList_def)
qed

lemma run_invariant:
  "registry_invariant (snd c) \<Longrightarrow> run xs c = Inr c' \<Longrightarrow> registry_invariant (snd c')"
proof (induction xs arbitrary: c)
  case Nil
  then show ?case by simp
next
  case (Cons x xs)
  from Cons.prems(2) obtain d where st: "step x c = Inr d" and rest: "run xs d = Inr c'"
    by (auto split: sum.splits)
  have "registry_invariant (snd d)"
    using step_invariant [of "snd c" x "fst c" "fst d" "snd d"] Cons.prems(1) st by simp
  with rest show ?case by (rule Cons.IH [rotated])
qed

lemma sink_owned_initial: "sink_owned (initial_process w)"
  by (simp add: sink_owned_def initial_process_def)

lemma sink_owned_SetOstream: "sink_owned (SetOstream new_stream s)"
  by (cases new_stream) (simp_all add: sink_owned_def SetOstream_def)

lemma ctor_store:
  assumes "SimpleLogger_ctor severity nl mem s = Inr (this, s')"
  shows "heap s' = heap s \<and> next_free s' = next_free s"
proof (cases "out_stream_valid s")
  case False
  with assms show ?thesis by (simp add: ctor_no_sink)
next
  case True
  with assms obtain a sink where a: "out_stream s = Some a" and live: "heap s a = Some sink"
    by (auto simp add: SimpleLogger_ctor_def split: option.splits)
  with assms True show ?thesis
    by (auto simp add: SimpleLogger_ctor_def try_block_eq Let_def split: option.splits if_splits)
qed

lemma sink_owned_dtor:
  assumes "sink_owned s" and "SimpleLogger_dtor this s = Inr s'"
  shows "sink_owned s'"
  using assms
  by (auto simp add: SimpleLogger_dtor_def reset_def emit_def sink_owned_def
      split: if_splits option.splits)

lemma sink_owned_step:
  assumes "sink_owned s" and "step x (objs, s) = Inr (objs', s')"
  shows "sink_owned s'"
proof (cases x)
  case (BeginLine i severity nl mem)
  with assms(2) obtain b where c: "SimpleLogger_ctor severity nl mem s = Inr (b, s')"
    by (auto split: option.splits sum.splits)
  from ctor_registry [OF c] ctor_store [OF c] assms(1) show ?thesis
    by (auto simp add: sink_owned_def split: option.splits)
next
  case (Append i v)
  with assms show ?thesis by (auto split: option.splits sum.splits)
next
  case (EndLine i)
  with assms(2) obtain b where "SimpleLogger_dtor b s = Inr s'"
    by (auto split: option.splits sum.splits)
  with assms(1) show ?thesis by (rule sink_owned_dtor)
next
  case (InstallSink new_stream)
  with assms(2) show ?thesis by (auto simp add: sink_owned_SetOstream)
next
  case (InstallPrefixes prefix_list)
  with assms show ?thesis
    by (auto simp add: sink_owned_def SetPrefixList_def split: option.splits)
qed

lemma sink_owned_run:
  "sink_owned (snd c) \<Longrightarrow> run xs c = Inr c' \<Longrightarrow> sink_owned (snd c')"
proof (induction xs arbitrary: c)
  case Nil
  then show ?case by simp
next
  case (Cons x xs)
  from Cons.prems(2) obtain d where st: "step x c = Inr d" and rest: "run xs d = Inr c'"
    by (auto split: sum.splits)
  have "sink_owned (snd d)"
    using sink_owned_step [of "snd c" x "fst c" "fst d" "snd d"] Cons.prems(1) st by simp
  with rest show ?case by (rule Cons.IH [rotated])
qed

text \<open>In every state a program reaches from the start, a set flag comes with a sink
  that is present, alive and good: what the theorems on the constructor assume of a
  valid sink.\<close>

lemma valid_sink_is_live:
  assumes "run xs (Map.empty, initial_process w) = Inr (objs, s)" and "out_stream_valid s"
  shows "\<exists>a sink. out_stream s = Some a \<and> heap s a = Some sink \<and> good sink"
proof -
  have "sink_owned s"
    using sink_owned_run [of "(Map.empty, initial_process w)" xs "(objs, s)"] assms(1)
    by (simp add: sink_owned_initial)
  with assms(2) show ?thesis
    by (auto simp add: sink_owned_def split: option.splits)
qed

text \<open>
  C8. The flag \<^verbatim>\<open>out_stream_valid_\<close> is set only if the sink is present: this holds at
  program start, it holds after \<^verbatim>\<open>SetOstream\<close> from any state whatever, and every
  call of a sequence (construction, insertion, destruction, either setter) keeps it.
  \<^verbatim>\<open>SetOstream\<close> always returns; after it the sink the registry owns is the one
  passed in, and the flag is: the new sink is present and was good when it was
  installed. So an absent or unhealthy new sink leaves the flag unset.
\<close>

theorem registry_invariant_holds:
  "registry_invariant (initial_process w)
   \<and> registry_invariant (SetOstream new_stream t)
   \<and> current_sink (SetOstream new_stream t) = new_stream
   \<and> out_stream_valid (SetOstream new_stream t) =
       (case new_stream of None \<Rightarrow> False | Some os \<Rightarrow> good os)
   \<and> (registry_invariant s \<and> run xs (objs, s) = Inr (objs', s') \<longrightarrow> registry_invariant s')"
proof -
  have "registry_invariant s'" if "registry_invariant s" and "run xs (objs, s) = Inr (objs', s')"
    using run_invariant [of "(objs, s)" xs "(objs', s')"] that by simp
  moreover have "current_sink (SetOstream new_stream t) = new_stream"
    by (cases new_stream) (simp_all add: current_sink_def SetOstream_def)
  moreover have "out_stream_valid (SetOstream new_stream t) =
       (case new_stream of None \<Rightarrow> False | Some os \<Rightarrow> good os)"
    by (cases new_stream) (simp_all add: SetOstream_def)
  ultimately show ?thesis
    by (simp add: SetOstream_invariant) (simp add: registry_invariant_def initial_process_def)
qed

theorem registry_invariant_holds_witness:
  "registry_invariant (initial_process (0 :: nat))
   \<and> run startup_calls (Map.empty, initial_process 0) =
       Inr (Map.empty, SetOstream (Some unhealthy_sink)
              (logging_process\<lparr>world := 2, heap := (heap logging_process)(0 \<mapsto>
                 \<lparr>written = ''t0 t1 INFO: \<newline>'', good = True\<rparr>)\<rparr>))
   \<and> registry_invariant (SetOstream (Some unhealthy_sink)
              (logging_process\<lparr>world := 2, heap := (heap logging_process)(0 \<mapsto>
                 \<lparr>written = ''t0 t1 INFO: \<newline>'', good = True\<rparr>)\<rparr>))
   \<and> \<not> out_stream_valid (SetOstream (Some unhealthy_sink) logging_process)
   \<and> current_sink (SetOstream (Some unhealthy_sink) logging_process) = Some unhealthy_sink"
proof -
  have i: "registry_invariant (initial_process (0 :: nat))"
    by (simp add: registry_invariant_def initial_process_def)
  have r: "run startup_calls (Map.empty, initial_process 0) =
       Inr (Map.empty, SetOstream (Some unhealthy_sink)
              (logging_process\<lparr>world := 2, heap := (heap logging_process)(0 \<mapsto>
                 \<lparr>written = ''t0 t1 INFO: \<newline>'', good = True\<rparr>)\<rparr>))"
  proof -
    let ?obj = "\<lparr>newline = True, out_sync_stream = Some \<lparr>wrapped = 0, pending = ''t0 t1 INFO: '', failed = False\<rparr>,
                  out_sync_stream_valid = True\<rparr>"
    have c: "SimpleLogger_ctor kInfo True True logging_process = Inr (?obj, logging_process\<lparr>world := 2\<rparr>)"
      by (simp add: SimpleLogger_ctor_def try_block_eq logging_process_simps clock_prefix_def
          kInfo_def severity_name_def)
    have d: "SimpleLogger_dtor ?obj (logging_process\<lparr>world := 2\<rparr>) =
        Inr (logging_process\<lparr>world := 2, heap := (heap logging_process)(0 \<mapsto>
                 \<lparr>written = ''t0 t1 INFO: \<newline>'', good = True\<rparr>)\<rparr>)"
      by (simp add: dtor_bound [where sink = memory_sink] logging_process_simps memory_sink_def
          rest_of_line_def)
    show ?thesis
      by (simp add: startup_calls_def logging_process_def [symmetric] c d)
  qed
  show ?thesis
    using i r registry_invariant_holds [of "0 :: nat" "Some unhealthy_sink" logging_process
        "initial_process 0" startup_calls Map.empty Map.empty
        "SetOstream (Some unhealthy_sink)
              (logging_process\<lparr>world := 2, heap := (heap logging_process)(0 \<mapsto>
                 \<lparr>written = ''t0 t1 INFO: \<newline>'', good = True\<rparr>)\<rparr>)"]
    by (simp add: unhealthy_sink_def)
qed

text \<open>
  C9, at the input where the code leaves it. The constructor holds the lock only for
  its own body, so \<^verbatim>\<open>SetOstream\<close> can run while a line is open. In
  \<open>reconfigure_calls\<close> the second \<^verbatim>\<open>SetOstream\<close> destroys the first sink at once: after
  it the open line's adapter still wraps address 0, the registry owns the sink at
  address 1, and address 0 is freed. When the line then ends, its destructor emits into
  the freed sink, which is undefined behaviour.
\<close>

theorem SetOstream_frees_sink_in_use:
  "map_sum id (\<lambda>(objs, s). (objs 0, out_stream s, heap s 0, heap s 1))
      (run reconfigure_calls (Map.empty, initial_process 0)) =
     Inr (Some \<lparr>newline = True, out_sync_stream = Some \<lparr>wrapped = 0, pending = ''DEBUG: Line '', failed = False\<rparr>,
                 out_sync_stream_valid = True\<rparr>,
          Some 1, None, Some memory_sink)
   \<and> run (reconfigure_calls @ [Append 0 (inserts ''1''), EndLine 0]) (Map.empty, initial_process 0) =
       Inl undefined_behaviour"
  by (simp add: reconfigure_calls_def SetOstream_def initial_process_def release_sink_def
      SimpleLogger_ctor_def try_block_eq kDebug_def severity_name_def operator_shl_def
      insert_wstring_def SimpleLogger_dtor_def reset_def emit_def memory_sink_def)

text \<open>
  C10. \<^verbatim>\<open>SetPrefixList\<close> leaves the sink pointer, the validity flag and the store of
  sinks as they are and changes only the prefix list; \<^verbatim>\<open>SetOstream\<close> leaves the
  prefix list as it is. Neither touches the diagnostic channel or the world.
\<close>

theorem setters_frame:
  "out_stream (SetPrefixList prefix_list s) = out_stream s
   \<and> out_stream_valid (SetPrefixList prefix_list s) = out_stream_valid s
   \<and> heap (SetPrefixList prefix_list s) = heap s
   \<and> next_free (SetPrefixList prefix_list s) = next_free s
   \<and> cerr (SetPrefixList prefix_list s) = cerr s
   \<and> world (SetPrefixList prefix_list s) = world s
   \<and> prefix_function_list (SetPrefixList prefix_list s) = prefix_list
   \<and> prefix_function_list (SetOstream new_stream s) = prefix_function_list s
   \<and> cerr (SetOstream new_stream s) = cerr s
   \<and> world (SetOstream new_stream s) = world s"
  by (cases new_stream) (simp_all add: SetPrefixList_def SetOstream_def)
end
